theory Spec2Isabelle
  imports Main
begin

section \<open>The demo module: \<open>examples/build_demo/demo/demo.pyx\<close>\<close>

text \<open>
  The only program text of the repository is the annotated demo module. Its thirteen
  lines are kept verbatim, one string per physical line (the file has no final newline).
\<close>

definition demo_pyx :: "string list" where
  "demo_pyx =
    [''# cimport cython'',
     ''# @boundscheck(False)'',
     ''# @wraparound(False)'',
     ''# @nonecheck(False)'',
     ''# @cdivision(True)'',
     ''def heavy_loop(n):'',
     ''    total = 0.0'',
     ''    # cdef int i (annotated)'',
     ''    for i in range(n):'',
     ''        # cdef int j (annotated)'',
     ''        for j in range(50):'',
     ''            total += i*j + i+j  # all arithmetic, no Python functions'',
     ''    return total'']"

subsection \<open>Python floats that \<open>total\<close> can hold\<close>

text \<open>
  \<open>total\<close> starts as the float \<open>0.0\<close> and only ever has non-negative Python ints
  added to it, so its value is always a non-negative integer-valued IEEE 754 double or
  \<open>+inf\<close>. \<open>Fin x\<close> is the double whose value is the integer \<open>x\<close>.

  A double has a 53-bit significand. \<open>bit_length\<close> is Python's \<open>int.bit_length\<close>;
  \<open>round53\<close> rounds an integer to 53 significant bits, ties to the even significand,
  which is what both the int-to-float conversion and the float addition do.
\<close>

datatype pyfloat = Fin nat | PInf

datatype py_error = OverflowError

fun bit_length :: "nat \<Rightarrow> nat" where
  "bit_length n = (if n = 0 then 0 else Suc (bit_length (n div 2)))"

declare bit_length.simps [simp del]

definition round53 :: "nat \<Rightarrow> nat" where
  "round53 x =
     (let k = bit_length x in
      if k \<le> 53 then x
      else
        let e = k - 53; q = x div 2 ^ e; r = x mod 2 ^ e; h = 2 ^ (e - 1) in
        if r < h \<or> (r = h \<and> even q) then q * 2 ^ e else (q + 1) * 2 ^ e)"

text \<open>
  \<open>float + int\<close> first converts the int: a value that rounds to \<open>2 ^ 1024\<close> or more
  raises \<open>OverflowError\<close> (int too large to convert to float). The addition of two
  doubles returns the correctly rounded sum, and \<open>inf\<close> where that exceeds the largest
  double; it never raises.
\<close>

definition float_of_int :: "nat \<Rightarrow> py_error + pyfloat" where
  "float_of_int b = (if round53 b < 2 ^ 1024 then Inr (Fin (round53 b)) else Inl OverflowError)"

fun float_add :: "pyfloat \<Rightarrow> pyfloat \<Rightarrow> pyfloat" where
  "float_add (Fin a) (Fin b) = (if round53 (a + b) < 2 ^ 1024 then Fin (round53 (a + b)) else PInf)"
| "float_add _ _ = PInf"

text \<open>The statement \<open>total += b\<close> for a float \<open>total\<close> and an int \<open>b\<close>.\<close>

definition iadd :: "pyfloat \<Rightarrow> nat \<Rightarrow> py_error + pyfloat" where
  "iadd tot b = (case float_of_int b of Inl e \<Rightarrow> Inl e | Inr fb \<Rightarrow> Inr (float_add tot fb))"

subsection \<open>\<open>heavy_loop\<close>\<close>

text \<open>
  \<^verbatim>\<open>
  def heavy_loop(n):
      total = 0.0
      for i in range(n):
          for j in range(50):
              total += i*j + i+j
      return total
  \<close>
  The two \<open>for\<close> loops become recursion over the lists that \<open>range\<close> yields; the
  variable \<open>total\<close> is written \<open>tot\<close>. \<open>i\<close> and \<open>j\<close> are Python ints, so
  \<open>i*j + i+j\<close> is exact.
\<close>

fun inner_loop :: "nat \<Rightarrow> nat list \<Rightarrow> pyfloat \<Rightarrow> py_error + pyfloat" where
  "inner_loop i [] tot = Inr tot"
| "inner_loop i (j # js) tot =
     (case iadd tot (i * j + i + j) of
        Inl e \<Rightarrow> Inl e
      | Inr tot' \<Rightarrow> inner_loop i js tot')"

fun outer_loop :: "nat list \<Rightarrow> pyfloat \<Rightarrow> py_error + pyfloat" where
  "outer_loop [] tot = Inr tot"
| "outer_loop (i # is) tot =
     (case inner_loop i [0..<50] tot of
        Inl e \<Rightarrow> Inl e
      | Inr tot' \<Rightarrow> outer_loop is tot')"

definition heavy_loop :: "nat \<Rightarrow> py_error + pyfloat" where
  "heavy_loop n = outer_loop [0..<n] (Fin 0)"

text \<open>The mathematical sum the loop is meant to accumulate.\<close>

definition exact_sum :: "nat \<Rightarrow> nat" where
  "exact_sum n = (\<Sum>i<n. \<Sum>j<50. i * j + i + j)"

definition row_sum :: "nat \<Rightarrow> nat list \<Rightarrow> nat" where
  "row_sum i js = (\<Sum>j\<leftarrow>js. i * j + i + j)"

subsection \<open>Annotation lines and statements of the demo\<close>

text \<open>
  Python's lexer: a comment starts with \<open>#\<close> outside a string literal and runs to the end
  of the physical line; a line that holds only white space and a comment produces no
  token. White space is space, tab and form feed.
\<close>

definition is_space :: "char \<Rightarrow> bool" where
  "is_space c = (c = CHR '' '' \<or> c = CHR 0x09 \<or> c = CHR 0x0C)"

definition lstrip :: "string \<Rightarrow> string" where
  "lstrip l = dropWhile is_space l"

definition rstrip :: "string \<Rightarrow> string" where
  "rstrip l = rev (dropWhile is_space (rev l))"

text \<open>A comment line: the first character after the indentation is \<open>#\<close>.\<close>

definition comment_line :: "string \<Rightarrow> bool" where
  "comment_line l = (case lstrip l of [] \<Rightarrow> False | c # _ \<Rightarrow> c = CHR ''#'')"

text \<open>
  No line of the demo holds a quote character (\<open>no_string_literals\<close> below), so the
  comment of a line is everything from its first \<open>#\<close>. The statements of a source are
  its lines without their comments and trailing white space, blank lines dropped; the
  indentation is kept, since it carries the block structure.
\<close>

definition strip_comment :: "string \<Rightarrow> string" where
  "strip_comment l = takeWhile (\<lambda>c. c \<noteq> CHR ''#'') l"

definition statements :: "string list \<Rightarrow> string list" where
  "statements src = filter (\<lambda>l. l \<noteq> []) (map (\<lambda>l. rstrip (strip_comment l)) src)"

text \<open>
  The annotation lines are the lines that carry one of the inserted directives: the
  \<open>cimport\<close>, the four \<open>@\<close> directives, a \<open>cdef\<close> declaration.
  \<open>startswith l p\<close> is \<open>l.startswith(p)\<close> and \<open>occurs_in p l\<close> is \<open>p in l\<close>.
\<close>

fun startswith :: "string \<Rightarrow> string \<Rightarrow> bool" where
  "startswith l [] = True"
| "startswith [] (p # ps) = False"
| "startswith (c # cs) (p # ps) = (c = p \<and> startswith cs ps)"

fun occurs_in :: "string \<Rightarrow> string \<Rightarrow> bool" where
  "occurs_in p [] = (p = [])"
| "occurs_in p (c # cs) = (startswith (c # cs) p \<or> occurs_in p cs)"

definition annotation_markers :: "string list" where
  "annotation_markers =
     [''cimport'', ''@boundscheck'', ''@wraparound'', ''@nonecheck'', ''@cdivision'', ''cdef'']"

definition is_annotation :: "string \<Rightarrow> bool" where
  "is_annotation l = list_ex (\<lambda>m. occurs_in m l) annotation_markers"

definition annotation_lines :: "string list \<Rightarrow> string list" where
  "annotation_lines src = filter is_annotation src"

text \<open>
  The source before annotation is not among the repository's files; it is what is left
  of the demo when the inserted annotation lines are taken out again.
\<close>

definition unannotated :: "string list \<Rightarrow> string list" where
  "unannotated src = filter (\<lambda>l. \<not> is_annotation l) src"

text \<open>
  The six statements that \<open>heavy_loop\<close> above was translated from. A source whose
  statements are these six defines the function \<open>heavy_loop\<close>; for any other source
  this development gives no meaning (\<open>None\<close>).
\<close>

definition heavy_loop_statements :: "string list" where
  "heavy_loop_statements =
    [''def heavy_loop(n):'',
     ''    total = 0.0'',
     ''    for i in range(n):'',
     ''        for j in range(50):'',
     ''            total += i*j + i+j'',
     ''    return total'']"

definition run_heavy_loop :: "string list \<Rightarrow> nat \<Rightarrow> (py_error + pyfloat) option" where
  "run_heavy_loop src n =
     (if statements src = heavy_loop_statements then Some (heavy_loop n) else None)"

section \<open>Task scheduling and the fingerprint store\<close>

text \<open>
  The repository's files hold the demo module and the README only. The build
  orchestration that the specification describes (FingerprintStore, TaskScheduler,
  LifecycleController) is not among them, so every definition of this section is written
  from the words of the specification, sections 3, 4.2, 4.5, 4.6, 6 and 7.
\<close>

subsection \<open>Data model\<close>

text \<open>
  Modelled from the spec: the SourceUnit of section 3 (the type is missing from the
  sources): \<open>{relativePath, absolutePath, sizeBytes, modifiedTime}\<close>, identity
  \<open>relativePath\<close>.
\<close>

record SourceUnit =
  relativePath :: string
  absolutePath :: string
  sizeBytes :: nat
  modifiedTime :: nat

text \<open>
  Modelled from the spec: the Fingerprint of section 3 (missing from the sources):
  \<open>{path, contentHash, sourceMTime, toolchainVersion}\<close>. The content hash is a number.
\<close>

record Fingerprint =
  path :: string
  contentHash :: nat
  sourceMTime :: nat
  toolchainVersion :: string

text \<open>
  Modelled from the spec: the FingerprintStore of section 2 (missing from the sources),
  a mapping from file path to the fingerprint last recorded for it.
\<close>

type_synonym Store = "string \<Rightarrow> Fingerprint option"

text \<open>
  Modelled from the spec: the ErrorDetail of a failed unit (missing from the sources).
  Section 7: a CompileError carries the captured diagnostic text, and a
  MissingModuleError is a CompileError that also carries the unresolved identifier.
\<close>

datatype ErrorDetail = CompileError string | MissingModuleError string string

text \<open>
  Modelled from the spec: the captured diagnostic text of an ErrorDetail (missing from
  the sources).
\<close>

fun diagnosticText :: "ErrorDetail \<Rightarrow> string" where
  "diagnosticText (CompileError t) = t"
| "diagnosticText (MissingModuleError m t) = t"

text \<open>
  Modelled from the spec: the BuildReport of section 3 (missing from the sources):
  \<open>{succeeded: set<path>, failed: map<path, ErrorDetail>, skipped: set<path>}\<close>.
\<close>

record BuildReport =
  succeeded :: "string set"
  failed :: "string \<Rightarrow> ErrorDetail option"
  skipped :: "string set"

subsection \<open>External collaborators\<close>

text \<open>
  Modelled from the spec: what one invocation of the external compiler returns
  (section 6): the exit code and the stdout/stderr text.
\<close>

record CompilerResult =
  exitCode :: int
  diagnostics :: string

text \<open>
  Modelled from the spec: everything the orchestrator treats as opaque, taken as
  parameters: the active toolchain version string, the bytes of a unit's file, the
  content hash, the Annotator, the external compiler (called on a unit's annotated
  source) and the search of the diagnostic text for a "module not found" pattern, which
  yields the unresolved identifier.
\<close>

record Collaborators =
  toolchain :: string
  readBytes :: "SourceUnit \<Rightarrow> string"
  fingerprintHash :: "string \<Rightarrow> nat"
  annotate :: "string \<Rightarrow> string"
  invokeCompiler :: "SourceUnit \<Rightarrow> string \<Rightarrow> CompilerResult"
  moduleNotFound :: "string \<Rightarrow> string option"

subsection \<open>FingerprintStore\<close>

text \<open>
  Modelled from the spec: \<open>Store.isStale(unit)\<close> of section 4.2 (the function is
  missing from the sources). A unit is stale if no record exists, the hash differs, or
  the toolchain version differs; if the mtime is unchanged since the last record,
  hashing is skipped and the unit is treated as not stale.
\<close>

definition isStale :: "Collaborators \<Rightarrow> Store \<Rightarrow> SourceUnit \<Rightarrow> bool" where
  "isStale c s u =
     (case s (relativePath u) of
        None \<Rightarrow> True
      | Some fp \<Rightarrow>
          if toolchainVersion fp \<noteq> toolchain c then True
          else if sourceMTime fp = modifiedTime u then False
          else contentHash fp \<noteq> fingerprintHash c (readBytes c u))"

text \<open>
  Modelled from the spec: the fingerprint that section 4.2 computes for a unit (missing
  from the sources): the hash of the unit's bytes, its mtime and the active toolchain
  version.
\<close>

definition fingerprint :: "Collaborators \<Rightarrow> SourceUnit \<Rightarrow> Fingerprint" where
  "fingerprint c u =
     \<lparr>path = relativePath u, contentHash = fingerprintHash c (readBytes c u),
      sourceMTime = modifiedTime u, toolchainVersion = toolchain c\<rparr>"

text \<open>
  Modelled from the spec: \<open>Store.record(unit, fingerprint)\<close> of section 4.2 (missing
  from the sources).
\<close>

definition record_fingerprint :: "Store \<Rightarrow> SourceUnit \<Rightarrow> Fingerprint \<Rightarrow> Store" where
  "record_fingerprint s u fp = s(relativePath u \<mapsto> fp)"

subsection \<open>TaskScheduler\<close>

text \<open>
  Modelled from the spec: one worker's compile step of section 4.5 (missing from the
  sources): annotate, then invoke the external compiler on the annotated source.
\<close>

definition compileUnit :: "Collaborators \<Rightarrow> SourceUnit \<Rightarrow> CompilerResult" where
  "compileUnit c u = invokeCompiler c u (annotate c (readBytes c u))"

text \<open>
  Modelled from the spec: how a worker reads the compiler's result, section 4.5 (missing
  from the sources). The invocation fails on a non-zero exit or a missing-dependency
  signal; an unresolved import is recorded as its own category, with the identifier.
  \<open>None\<close> is success.
\<close>

definition failureOf :: "Collaborators \<Rightarrow> CompilerResult \<Rightarrow> ErrorDetail option" where
  "failureOf c r =
     (case moduleNotFound c (diagnostics r) of
        Some m \<Rightarrow> Some (MissingModuleError m (diagnostics r))
      | None \<Rightarrow> if exitCode r \<noteq> 0 then Some (CompileError (diagnostics r)) else None)"

text \<open>
  Modelled from the spec: the scheduler's state during a run (missing from the
  sources): the store, the report built so far, and the paths submitted to the external
  compiler, in order.
\<close>

record SchedulerState =
  store :: Store
  report :: BuildReport
  invocations :: "string list"

text \<open>
  Modelled from the spec: a worker of section 4.5 (missing from the sources). On
  success it updates the FingerprintStore and marks the unit Succeeded; on failure it
  marks the unit Failed with the captured diagnostic text and does not update the
  FingerprintStore.
\<close>

definition worker :: "Collaborators \<Rightarrow> SchedulerState \<Rightarrow> SourceUnit \<Rightarrow> SchedulerState" where
  "worker c st u =
     (let r = compileUnit c u;
          st' = st\<lparr>invocations := invocations st @ [relativePath u]\<rparr>
      in case failureOf c r of
           None \<Rightarrow>
             st'\<lparr>store := record_fingerprint (store st) u (fingerprint c u),
                 report := (report st)\<lparr>succeeded := insert (relativePath u) (succeeded (report st))\<rparr>\<rparr>
         | Some d \<Rightarrow>
             st'\<lparr>report := (report st)\<lparr>failed := (failed (report st))(relativePath u \<mapsto> d)\<rparr>\<rparr>)"

text \<open>
  Modelled from the spec: \<open>submit(units)\<close> of section 4.5 (missing from the sources):
  partition the units into skip (not stale) and run (stale), and dispatch the run units
  to the workers. The worker pool is modelled by its workers taking the run units one
  after the other: the specification serialises the store's writes and makes the report
  independent of the order.
\<close>

definition submit :: "Collaborators \<Rightarrow> Store \<Rightarrow> SourceUnit list \<Rightarrow> SchedulerState" where
  "submit c s units =
     (let run = filter (isStale c s) units;
          skip = filter (\<lambda>u. \<not> isStale c s u) units
      in foldl (worker c)
           \<lparr>store = s,
            report = \<lparr>succeeded = {}, failed = Map.empty, skipped = set (map relativePath skip)\<rparr>,
            invocations = []\<rparr>
           run)"

subsection \<open>LifecycleController\<close>

text \<open>
  Modelled from the spec: the states of section 4.6 (missing from the sources). The
  state Failed is written \<open>RunFailed\<close>.
\<close>

datatype LifecycleState =
  Idle | Scanning | Pruning | Building | Reporting | Done | RunFailed | Cleaning

text \<open>
  Modelled from the spec: what a build run leaves behind (missing from the sources):
  the states it went through, the report, the store and the process exit code.
\<close>

record RunOutcome =
  states :: "LifecycleState list"
  runReport :: BuildReport
  runStore :: Store
  processExit :: int

text \<open>
  Modelled from the spec: the build path of the LifecycleController, section 4.6
  (missing from the sources). The scan's result is a parameter: \<open>None\<close> when the scan
  found the target root absent. \<open>Building \<rightarrow> Reporting\<close> always occurs;
  \<open>Reporting \<rightarrow> Failed\<close> only if zero units succeeded and at least one was attempted, or
  the target root is absent. The exit code is 0 on full success (sections 6 and 8:
  nonzero as soon as a unit failed).
\<close>

definition build :: "Collaborators \<Rightarrow> Store \<Rightarrow> SourceUnit list option \<Rightarrow> RunOutcome" where
  "build c s scanned =
     (case scanned of
        None \<Rightarrow>
          \<lparr>states = [Idle, Scanning, Reporting, RunFailed],
           runReport = \<lparr>succeeded = {}, failed = Map.empty, skipped = {}\<rparr>,
           runStore = s, processExit = 1\<rparr>
      | Some units \<Rightarrow>
          let st = submit c s units;
              final = (if succeeded (report st) = {} \<and> invocations st \<noteq> [] then RunFailed else Done)
          in \<lparr>states = [Idle, Scanning, Pruning, Building, Reporting, final],
              runReport = report st,
              runStore = store st,
              processExit = (if final = Done \<and> dom (failed (report st)) = {} then 0 else 1)\<rparr>)"

text \<open>
  A run to try the definitions on: three files, a compiler that rejects \<open>b.py\<close>.
\<close>

definition tools_demo :: Collaborators where
  "tools_demo =
     \<lparr>toolchain = ''cython 3.0'',
      readBytes = (\<lambda>u. ''x = 1''),
      fingerprintHash = length,
      annotate = (\<lambda>src. src),
      invokeCompiler = (\<lambda>u src.
        if relativePath u = ''b.py'' then \<lparr>exitCode = 1, diagnostics = ''b.py:1: error''\<rparr>
        else \<lparr>exitCode = 0, diagnostics = []\<rparr>),
      moduleNotFound = (\<lambda>diag. None)\<rparr>"

definition unit_demo :: "string \<Rightarrow> SourceUnit" where
  "unit_demo p =
     \<lparr>relativePath = p, absolutePath = ''/project/'' @ p, sizeBytes = 5, modifiedTime = 7\<rparr>"

section \<open>Properties of \<open>heavy_loop\<close>\<close>

subsection \<open>Rounding to 53 bits\<close>

lemma bit_length_le: "bit_length x \<le> k \<longleftrightarrow> x < 2 ^ k"
proof (induction x arbitrary: k rule: bit_length.induct)
  case (1 n)
  show ?case
  proof (cases "n = 0")
    case True
    then show ?thesis by (simp add: bit_length.simps)
  next
    case False
    show ?thesis
    proof (cases k)
      case 0
      with False show ?thesis by (simp add: bit_length.simps)
    next
      case (Suc k')
      have "bit_length n \<le> Suc k' \<longleftrightarrow> bit_length (n div 2) \<le> k'"
        using False by (subst bit_length.simps) simp
      also have "\<dots> \<longleftrightarrow> n div 2 < 2 ^ k'"
        using "1.IH" [OF False] .
      also have "\<dots> \<longleftrightarrow> n < 2 ^ Suc k'"
        by (simp add: less_mult_imp_div_less div_less_iff_less_mult mult.commute)
      finally show ?thesis using Suc by simp
    qed
  qed
qed

text \<open>Every integer up to \<open>2 ^ 53\<close> is a double.\<close>

lemma round53_small: "x \<le> 2 ^ 53 \<Longrightarrow> round53 x = x"
proof (cases "x < 2 ^ 53")
  case True
  then show ?thesis by (simp add: round53_def bit_length_le)
next
  case False
  assume "x \<le> 2 ^ 53"
  with False have x: "x = 2 ^ 53" by simp
  have "bit_length x \<le> 54" "\<not> bit_length x \<le> 53"
    by (simp_all add: bit_length_le x)
  then have "bit_length x = 54" by simp
  then show ?thesis by (simp add: round53_def x)
qed

text \<open>
  From \<open>2 ^ 53\<close> up to \<open>2 ^ 54\<close> the doubles are the even integers; an odd integer
  lies half way between two of them and goes to the multiple of four.
\<close>

lemma round53_54:
  assumes "2 ^ 53 \<le> x" "x < 2 ^ 54"
  shows "round53 x = (if even x then x else if even (x div 2) then x - 1 else x + 1)"
proof -
  have "bit_length x \<le> 54" "\<not> bit_length x \<le> 53"
    using assms by (simp_all add: bit_length_le)
  then have k: "bit_length x = 54" by simp
  show ?thesis
  proof (cases "even x")
    case True
    then show ?thesis by (simp add: round53_def k Let_def)
  next
    case False
    then have "x mod 2 = 1" by (simp add: odd_iff_mod_2_eq_one)
    moreover have "x div 2 * 2 = x - 1"
      using False
      by (metis One_nat_def add_diff_cancel_right' mult.commute odd_two_times_div_two_succ)
    ultimately show ?thesis using False by (simp add: round53_def k Let_def)
  qed
qed

lemma iadd_exact:
  assumes "t + b \<le> 2 ^ 53"
  shows "iadd (Fin t) b = Inr (Fin (t + b))"
proof -
  have b: "round53 b = b" using assms by (simp add: round53_small)
  have s: "round53 (t + b) = t + b" using assms by (simp add: round53_small)
  have "(2::nat) ^ 53 < 2 ^ 1024" by simp
  with assms have "b < 2 ^ 1024" "t + b < 2 ^ 1024" by linarith+
  then show ?thesis by (simp add: iadd_def float_of_int_def b s)
qed

lemma iadd_54:
  assumes "b \<le> 2 ^ 53" "2 ^ 53 \<le> t + b" "t + b < 2 ^ 54"
  shows "iadd (Fin t) b =
    Inr (Fin (if even (t + b) then t + b else if even ((t + b) div 2) then t + b - 1 else t + b + 1))"
proof -
  have b: "round53 b = b" using assms(1) by (rule round53_small)
  have "(2::nat) ^ 53 < 2 ^ 1024" "(2::nat) ^ 54 < 2 ^ 1024" by simp_all
  with assms have lt: "b < 2 ^ 1024" "t + b + 1 < 2 ^ 1024" by linarith+
  then have lt': "t + b < 2 ^ 1024" "t + b - 1 < 2 ^ 1024" by linarith+
  show ?thesis
    using lt lt' by (simp add: iadd_def float_of_int_def b round53_54 [OF assms(2,3)])
qed

subsection \<open>The loops while every partial sum is at most \<open>2 ^ 53\<close>\<close>

lemma inner_loop_exact:
  "t + row_sum i js \<le> 2 ^ 53 \<Longrightarrow> inner_loop i js (Fin t) = Inr (Fin (t + row_sum i js))"
proof (induction js arbitrary: t)
  case Nil
  then show ?case by (simp add: row_sum_def)
next
  case (Cons j js)
  let ?b = "i * j + i + j"
  have split: "row_sum i (j # js) = ?b + row_sum i js" by (simp add: row_sum_def)
  with Cons.prems have le: "t + ?b \<le> 2 ^ 53" and le': "(t + ?b) + row_sum i js \<le> 2 ^ 53"
    by linarith+
  have "inner_loop i (j # js) (Fin t) = inner_loop i js (Fin (t + ?b))"
    using iadd_exact [OF le] by simp
  also have "\<dots> = Inr (Fin ((t + ?b) + row_sum i js))"
    by (rule Cons.IH [OF le'])
  finally show ?case by (simp add: split add.assoc)
qed

lemma outer_loop_exact:
  "t + (\<Sum>i\<leftarrow>is. row_sum i [0..<50]) \<le> 2 ^ 53 \<Longrightarrow>
   outer_loop is (Fin t) = Inr (Fin (t + (\<Sum>i\<leftarrow>is. row_sum i [0..<50])))"
proof (induction "is" arbitrary: t)
  case Nil
  then show ?case by simp
next
  case (Cons i "is")
  let ?r = "row_sum i [0..<50]"
  let ?rest = "\<Sum>i\<leftarrow>is. row_sum i [0..<50]"
  from Cons.prems have le: "t + ?r \<le> 2 ^ 53" and le': "(t + ?r) + ?rest \<le> 2 ^ 53"
    by simp_all
  have "outer_loop (i # is) (Fin t) = outer_loop is (Fin (t + ?r))"
    using inner_loop_exact [OF le] by simp
  also have "\<dots> = Inr (Fin ((t + ?r) + ?rest))"
    by (rule Cons.IH [OF le'])
  finally show ?case by (simp add: add.assoc)
qed

lemma outer_loop_append:
  "outer_loop (xs @ ys) t =
     (case outer_loop xs t of Inl e \<Rightarrow> Inl e | Inr t' \<Rightarrow> outer_loop ys t')"
  by (induction xs arbitrary: t) (auto split: sum.splits)

subsection \<open>The sum in closed form\<close>

lemma exact_sum_rows: "exact_sum n = (\<Sum>i\<leftarrow>[0..<n]. row_sum i [0..<50])"
  by (simp add: exact_sum_def row_sum_def interv_sum_list_conv_sum_set_nat atLeast0LessThan)

lemma row_sum_50: "row_sum i [0..<50] = 1275 * i + 1225"
proof -
  have "row_sum i [0..<50] = (\<Sum>j<50. i * j + i + j)"
    by (simp add: row_sum_def interv_sum_list_conv_sum_set_nat atLeast0LessThan)
  also have "\<dots> = (\<Sum>j<50. (i + 1) * j + i)"
    by (simp add: algebra_simps)
  also have "\<dots> = (i + 1) * (\<Sum>j<50. j) + 50 * i"
    by (simp add: sum.distrib sum_distrib_left)
  also have "(\<Sum>j<(50::nat). j) = 1225"
    by (simp add: eval_nat_numeral lessThan_Suc)
  finally show ?thesis by simp
qed

lemma exact_sum_0: "exact_sum 0 = 0"
  by (simp add: exact_sum_def)

lemma exact_sum_Suc: "exact_sum (Suc n) = exact_sum n + (1275 * n + 1225)"
  by (simp add: exact_sum_rows row_sum_50)

lemma exact_sum_closed: "2 * exact_sum n = 1275 * n * (n - 1) + 2450 * n"
proof (induction n)
  case 0
  show ?case by (simp add: exact_sum_0)
next
  case (Suc n)
  show ?case
  proof (cases n)
    case 0
    then show ?thesis by (simp add: exact_sum_Suc exact_sum_0)
  next
    case (Suc m)
    with Suc.IH show ?thesis
      by (simp add: exact_sum_Suc algebra_simps)
  qed
qed

lemma exact_sum_mono: "m \<le> n \<Longrightarrow> exact_sum m \<le> exact_sum n"
  by (induction n) (auto simp: exact_sum_Suc le_Suc_eq)

lemma exact_sum_3: "exact_sum 3 = 7500"
  by (simp add: numeral_3_eq_3 exact_sum_Suc exact_sum_0)

text \<open>
  \<open>n = 3758847\<close> is the last argument whose sum stays below
  \<open>2 ^ 53 = 9007199254740992\<close>; the sum for \<open>n = 3758848\<close> is above it.
\<close>

lemma exact_sum_3758847: "exact_sum 3758847 = 9007195573820850"
proof -
  have "2 * exact_sum 3758847 = 2 * 9007195573820850"
    by (simp add: exact_sum_closed)
  then show ?thesis by simp
qed

lemma exact_sum_3758848: "exact_sum 3758848 = 9007200366352000"
proof -
  have "2 * exact_sum 3758848 = 2 * 9007200366352000"
    by (simp add: exact_sum_closed)
  then show ?thesis by simp
qed

lemma exact_sum_le_2_53_iff: "exact_sum n \<le> 2 ^ 53 \<longleftrightarrow> n \<le> 3758847"
proof
  assume le: "exact_sum n \<le> 2 ^ 53"
  show "n \<le> 3758847"
  proof (rule ccontr)
    assume "\<not> n \<le> 3758847"
    then have "exact_sum 3758848 \<le> exact_sum n" by (intro exact_sum_mono) simp
    with le show False by (simp add: exact_sum_3758848)
  qed
next
  assume "n \<le> 3758847"
  then have "exact_sum n \<le> exact_sum 3758847" by (rule exact_sum_mono)
  then show "exact_sum n \<le> 2 ^ 53" by (simp add: exact_sum_3758847)
qed

lemma heavy_loop_exact:
  assumes "n \<le> 3758847"
  shows "heavy_loop n = Inr (Fin (exact_sum n))"
proof -
  have "exact_sum n \<le> exact_sum 3758847" using assms by (rule exact_sum_mono)
  also have "\<dots> \<le> 2 ^ 53" by (simp add: exact_sum_3758847)
  finally have "0 + (\<Sum>i\<leftarrow>[0..<n]. row_sum i [0..<50]) \<le> 2 ^ 53"
    by (simp add: exact_sum_rows)
  from outer_loop_exact [OF this] show ?thesis
    by (simp add: heavy_loop_def exact_sum_rows)
qed

subsection \<open>The first inexact call\<close>

text \<open>
  The pass \<open>i = 3758847\<close> of the outer loop starts from the exact total for
  \<open>n = 3758847\<close>, and its addends are \<open>3758848 * (j + 1) - 1\<close>. The total passes
  \<open>2 ^ 53\<close> at \<open>j = 43\<close>, where it is \<open>9007199295080326\<close>, still exact. At \<open>j = 44\<close> the
  sum \<open>9007199464228485\<close> is odd, so it is no double: it lies half way between two
  doubles and is rounded to \<open>9007199464228484\<close>. The remaining five additions each round
  up by one, which leaves the total four above the sum.
\<close>

lemma inner_loop_3758847:
  "inner_loop 3758847 [0..<50] (Fin 9007195573820850) = Inr (Fin 9007200366352004)"
  by (simp add: upt_rec iadd_exact iadd_54)

lemma heavy_loop_3758848: "heavy_loop 3758848 = Inr (Fin 9007200366352004)"
proof -
  have "[0..<3758848] = [0..<3758847] @ [3758847]"
    using upt_Suc_append [of 0 3758847] by simp
  then have "heavy_loop 3758848 =
      (case heavy_loop 3758847 of Inl e \<Rightarrow> Inl e | Inr t' \<Rightarrow> outer_loop [3758847] t')"
    by (simp add: heavy_loop_def outer_loop_append)
  also have "heavy_loop 3758847 = Inr (Fin 9007195573820850)"
    using heavy_loop_exact [of 3758847] by (simp add: exact_sum_3758847)
  finally show ?thesis by (simp add: inner_loop_3758847)
qed

subsection \<open>Claim C9\<close>

text \<open>
  C9 as stated: for every natural number \<open>n\<close>, \<open>heavy_loop(n)\<close> returns the sum over
  \<open>i\<close> in \<open>[0, n)\<close> and \<open>j\<close> in \<open>[0, 50)\<close> of \<open>i*j + i + j\<close> as a float. This fails at
  \<open>n = 3758848\<close>: the sum is \<open>9007200366352000\<close>, which is itself a double, and the
  function returns \<open>9007200366352004.0\<close>.
\<close>

theorem heavy_loop_sum_counterexample:
  "heavy_loop 3758848 = Inr (Fin 9007200366352004)
   \<and> exact_sum 3758848 = 9007200366352000
   \<and> round53 (exact_sum 3758848) = exact_sum 3758848
   \<and> heavy_loop 3758848 \<noteq> Inr (Fin (exact_sum 3758848))"
  by (simp add: heavy_loop_3758848 exact_sum_3758848 round53_54)

text \<open>
  C9, amended: for every natural number \<open>n \<le> 3758847\<close> (every \<open>n\<close> whose sum is at most
  \<open>2 ^ 53\<close>), \<open>heavy_loop(n)\<close> returns without raising, and its result is the float whose
  value is exactly the sum over \<open>i\<close> in \<open>[0, n)\<close> and \<open>j\<close> in \<open>[0, 50)\<close> of
  \<open>i*j + i + j\<close>; in particular \<open>heavy_loop(0)\<close> returns \<open>0.0\<close>.
\<close>

theorem heavy_loop_sum:
  "(n \<le> 3758847 \<longrightarrow> heavy_loop n = Inr (Fin (exact_sum n))) \<and> heavy_loop 0 = Inr (Fin 0)"
  using heavy_loop_exact [of n] heavy_loop_exact [of 0] by (simp add: exact_sum_0)

theorem heavy_loop_sum_witness:
  "(3::nat) \<le> 3758847 \<and> heavy_loop 3 = Inr (Fin 7500)"
proof -
  have le: "(3::nat) \<le> 3758847" by simp
  show ?thesis using le heavy_loop_sum [of 3] by (simp add: exact_sum_3)
qed

section \<open>Properties of the demo's annotation lines\<close>

lemma no_string_literals:
  "list_all (\<lambda>l. CHR 0x22 \<notin> set l \<and> CHR 0x27 \<notin> set l) demo_pyx"
  by (simp add: demo_pyx_def)

lemma annotation_lines_demo:
  "annotation_lines demo_pyx =
    [''# cimport cython'',
     ''# @boundscheck(False)'',
     ''# @wraparound(False)'',
     ''# @nonecheck(False)'',
     ''# @cdivision(True)'',
     ''    # cdef int i (annotated)'',
     ''        # cdef int j (annotated)'']"
  by (simp add: annotation_lines_def demo_pyx_def is_annotation_def annotation_markers_def)

lemma unannotated_demo:
  "unannotated demo_pyx =
    [''def heavy_loop(n):'',
     ''    total = 0.0'',
     ''    for i in range(n):'',
     ''        for j in range(50):'',
     ''            total += i*j + i+j  # all arithmetic, no Python functions'',
     ''    return total'']"
  by (simp add: unannotated_def demo_pyx_def is_annotation_def annotation_markers_def)

lemma annotation_lines_comments: "list_all comment_line (annotation_lines demo_pyx)"
  unfolding annotation_lines_demo
  by (simp add: comment_line_def lstrip_def is_space_def)

lemma annotation_lines_indentation:
  "map (takeWhile is_space) (annotation_lines demo_pyx) =
     ['''', '''', '''', '''', '''', ''    '', ''        '']"
  unfolding annotation_lines_demo
  by (simp add: is_space_def)

lemma statements_demo: "statements demo_pyx = heavy_loop_statements"
  by (simp add: statements_def demo_pyx_def heavy_loop_statements_def strip_comment_def
      rstrip_def is_space_def)

lemma statements_unannotated: "statements (unannotated demo_pyx) = heavy_loop_statements"
  unfolding unannotated_demo
  by (simp add: statements_def heavy_loop_statements_def strip_comment_def
      rstrip_def is_space_def)

text \<open>
  This holds for every source, not only for the demo: a comment line carries no
  statement, so taking comment lines out of a source leaves its statements as they are.
\<close>

lemma rstrip_Nil_iff: "rstrip xs = [] \<longleftrightarrow> (\<forall>c\<in>set xs. is_space c)"
  by (simp add: rstrip_def dropWhile_eq_Nil_conv)

lemma comment_line_Cons:
  "comment_line (c # cs) \<longleftrightarrow> (if is_space c then comment_line cs else c = CHR ''#'')"
  by (simp add: comment_line_def lstrip_def)

lemma comment_line_blank_before_hash:
  "comment_line l \<Longrightarrow> \<forall>c\<in>set (strip_comment l). is_space c"
proof (induction l)
  case Nil
  then show ?case by (simp add: comment_line_def lstrip_def)
next
  case (Cons c cs)
  then show ?case
    by (auto simp: comment_line_Cons strip_comment_def is_space_def split: if_splits)
qed

lemma comment_line_no_statement: "comment_line l \<Longrightarrow> rstrip (strip_comment l) = []"
  by (simp add: rstrip_Nil_iff comment_line_blank_before_hash)

lemma statements_without_comment_lines:
  "statements (filter (\<lambda>l. \<not> comment_line l) src) = statements src"
  by (induction src) (auto simp: statements_def comment_line_no_statement)

subsection \<open>Claim C10\<close>

text \<open>
  C10: every annotation line inserted into the demo source (the \<open>cimport\<close>, the
  \<open>@boundscheck\<close>, \<open>@wraparound\<close>, \<open>@nonecheck\<close> and \<open>@cdivision\<close> directives, and
  the two \<open>cdef\<close> declarations: seven lines) begins with \<open>#\<close>, that is, it is a comment
  line. The five header lines have the \<open>#\<close> in column 0; the two \<open>cdef\<close> lines have it
  after the indentation of their loop (4 and 8 spaces). So the statements of the
  annotated file are the statements of the source without the annotation lines, and
  \<open>heavy_loop\<close> computes the same value for every input \<open>n\<close> in both versions.
\<close>

theorem annotations_are_comments:
  "length (annotation_lines demo_pyx) = 7
   \<and> list_all comment_line (annotation_lines demo_pyx)
   \<and> map (takeWhile is_space) (annotation_lines demo_pyx) =
       ['''', '''', '''', '''', '''', ''    '', ''        '']
   \<and> statements demo_pyx = statements (unannotated demo_pyx)
   \<and> run_heavy_loop demo_pyx n = Some (heavy_loop n)
   \<and> run_heavy_loop (unannotated demo_pyx) n = run_heavy_loop demo_pyx n"
  using annotation_lines_comments annotation_lines_indentation
  by (simp add: run_heavy_loop_def statements_demo statements_unannotated)
     (simp add: annotation_lines_demo)

section \<open>Properties of the scheduler\<close>

subsection \<open>What a worker changes\<close>

lemma isStale_cong: "s (relativePath u) = s' (relativePath u) \<Longrightarrow> isStale c s u = isStale c s' u"
  by (simp add: isStale_def)

lemma failureOf_text: "failureOf c r = Some d \<Longrightarrow> diagnosticText d = diagnostics r"
  by (auto simp: failureOf_def split: option.splits if_splits)

lemma failureOf_Some_iff:
  "failureOf c r \<noteq> None \<longleftrightarrow> exitCode r \<noteq> 0 \<or> moduleNotFound c (diagnostics r) \<noteq> None"
  by (auto simp: failureOf_def split: option.splits)

lemma failureOf_None_iff:
  "failureOf c r = None \<longleftrightarrow> exitCode r = 0 \<and> moduleNotFound c (diagnostics r) = None"
  using failureOf_Some_iff [of c r] by auto

lemma worker_store:
  "store (worker c st u) p =
     (if relativePath u = p \<and> failureOf c (compileUnit c u) = None then Some (fingerprint c u)
      else store st p)"
  by (simp add: worker_def Let_def record_fingerprint_def split: option.splits)

lemma worker_failed:
  "failed (report (worker c st u)) p =
     (if relativePath u = p \<and> failureOf c (compileUnit c u) \<noteq> None
      then failureOf c (compileUnit c u)
      else failed (report st) p)"
  by (auto simp add: worker_def Let_def split: option.splits)

lemma worker_succeeded:
  "succeeded (report (worker c st u)) =
     (if failureOf c (compileUnit c u) = None then insert (relativePath u) (succeeded (report st))
      else succeeded (report st))"
  by (auto simp add: worker_def Let_def split: option.splits)

lemma worker_skipped: "skipped (report (worker c st u)) = skipped (report st)"
  by (simp add: worker_def Let_def split: option.splits)

lemma worker_invocations: "invocations (worker c st u) = invocations st @ [relativePath u]"
  by (simp add: worker_def Let_def split: option.splits)

lemma foldl_worker_store_other:
  "\<forall>u \<in> set us. relativePath u = p \<longrightarrow> failureOf c (compileUnit c u) \<noteq> None \<Longrightarrow>
   store (foldl (worker c) st us) p = store st p"
  by (induction us arbitrary: st) (auto simp: worker_store)

lemma foldl_worker_failed_other:
  "p \<notin> relativePath ` set us \<Longrightarrow> failed (report (foldl (worker c) st us)) p = failed (report st) p"
  by (induction us arbitrary: st) (auto simp: worker_failed)

lemma foldl_worker_failed:
  "distinct (map relativePath us) \<Longrightarrow> u \<in> set us \<Longrightarrow> failureOf c (compileUnit c u) = Some d \<Longrightarrow>
   failed (report (foldl (worker c) st us)) (relativePath u) = Some d"
proof (induction us arbitrary: st)
  case Nil
  then show ?case by simp
next
  case (Cons v us)
  show ?case
  proof (cases "v = u")
    case True
    with Cons.prems have "relativePath u \<notin> relativePath ` set us" by auto
    then show ?thesis using True Cons.prems(3)
      by (simp add: foldl_worker_failed_other worker_failed)
  next
    case False
    with Cons.prems have "u \<in> set us" "distinct (map relativePath us)" by auto
    then show ?thesis using Cons.IH Cons.prems(3) by simp
  qed
qed

lemma foldl_worker_invocations:
  "invocations (foldl (worker c) st us) = invocations st @ map relativePath us"
  by (induction us arbitrary: st) (auto simp: worker_invocations)

lemma foldl_worker_skipped: "skipped (report (foldl (worker c) st us)) = skipped (report st)"
  by (induction us arbitrary: st) (auto simp: worker_skipped)

lemma foldl_worker_accounted:
  "succeeded (report (foldl (worker c) st us)) \<union> dom (failed (report (foldl (worker c) st us)))
     = succeeded (report st) \<union> dom (failed (report st)) \<union> relativePath ` set us"
proof (induction us arbitrary: st)
  case Nil
  show ?case by simp
next
  case (Cons v us)
  have "succeeded (report (worker c st v)) \<union> dom (failed (report (worker c st v)))
      = succeeded (report st) \<union> dom (failed (report st)) \<union> {relativePath v}"
    by (auto simp: worker_succeeded worker_failed dom_def split: if_splits)
  then show ?case using Cons.IH [of "worker c st v"] by auto
qed

lemma build_reports_every_unit:
  "Reporting \<in> set (states (build c s (Some us)))
   \<and> succeeded (runReport (build c s (Some us))) \<union> dom (failed (runReport (build c s (Some us))))
       \<union> skipped (runReport (build c s (Some us))) = set (map relativePath us)
   \<and> invocations (submit c s us) = map relativePath (filter (isStale c s) us)"
proof -
  have "succeeded (report (submit c s us)) \<union> dom (failed (report (submit c s us)))
        \<union> skipped (report (submit c s us))
      = relativePath ` set (filter (isStale c s) us)
        \<union> relativePath ` set (filter (\<lambda>u. \<not> isStale c s u) us)"
    by (simp add: submit_def Let_def foldl_worker_accounted foldl_worker_skipped)
  also have "\<dots> = set (map relativePath us)" by auto
  finally show ?thesis
    by (simp add: build_def Let_def submit_def foldl_worker_invocations)
qed

subsection \<open>Claim C4\<close>

text \<open>
  C4: no fingerprint update on failure. For every unit of a run whose compiler
  invocation fails (non-zero exit or missing-dependency signal), the FingerprintStore
  entry for the unit's path is the same after the run as before it, so the unit, with
  its source bytes unedited, is still classified stale on the next run; the report holds
  the unit as Failed with the captured diagnostic text. The units of a run have distinct
  paths (a unit's identity is its \<open>relativePath\<close>), and the unit was handed to the
  compiler because it was stale.
\<close>

theorem failed_unit_keeps_fingerprint:
  assumes "distinct (map relativePath units)"
    and "u \<in> set units"
    and "isStale c s u"
    and "exitCode (compileUnit c u) \<noteq> 0 \<or> moduleNotFound c (diagnostics (compileUnit c u)) \<noteq> None"
  shows "store (submit c s units) (relativePath u) = s (relativePath u)
    \<and> isStale c (store (submit c s units)) u
    \<and> (\<exists>d. failed (report (submit c s units)) (relativePath u) = Some d
          \<and> diagnosticText d = diagnostics (compileUnit c u))"
proof -
  let ?run = "filter (isStale c s) units"
  from assms(4) obtain d where d: "failureOf c (compileUnit c u) = Some d"
    using failureOf_Some_iff [of c "compileUnit c u"] by auto
  have run: "u \<in> set ?run" "distinct (map relativePath ?run)"
    using assms(1-3) by (simp_all add: distinct_map_filter)
  have same: "\<forall>v \<in> set ?run. relativePath v = relativePath u \<longrightarrow> failureOf c (compileUnit c v) \<noteq> None"
  proof (intro ballI impI)
    fix v assume "v \<in> set ?run" "relativePath v = relativePath u"
    with assms(1,2) have "v = u" by (auto simp: distinct_map inj_on_def)
    with d show "failureOf c (compileUnit c v) \<noteq> None" by simp
  qed
  have st: "store (submit c s units) (relativePath u) = s (relativePath u)"
    by (simp add: submit_def Let_def foldl_worker_store_other [OF same])
  have "isStale c (store (submit c s units)) u = isStale c s u"
    using st by (rule isStale_cong)
  moreover have "failed (report (submit c s units)) (relativePath u) = Some d"
    by (simp add: submit_def Let_def foldl_worker_failed [OF run(2) run(1) d])
  ultimately show ?thesis using st assms(3) failureOf_text [OF d] by simp
qed

theorem failed_unit_keeps_fingerprint_witness:
  "isStale tools_demo Map.empty (unit_demo ''b.py'')
   \<and> exitCode (compileUnit tools_demo (unit_demo ''b.py'')) = 1
   \<and> store (submit tools_demo Map.empty [unit_demo ''a.py'', unit_demo ''b.py'']) ''b.py'' = None
   \<and> store (submit tools_demo Map.empty [unit_demo ''a.py'', unit_demo ''b.py'']) ''a.py'' \<noteq> None
   \<and> isStale tools_demo (store (submit tools_demo Map.empty [unit_demo ''a.py'', unit_demo ''b.py'']))
        (unit_demo ''b.py'')"
proof -
  have h1: "distinct (map relativePath [unit_demo ''a.py'', unit_demo ''b.py''])"
    by (simp add: unit_demo_def)
  have h2: "unit_demo ''b.py'' \<in> set [unit_demo ''a.py'', unit_demo ''b.py'']" by simp
  have h3: "isStale tools_demo Map.empty (unit_demo ''b.py'')" by (simp add: isStale_def)
  have h4: "exitCode (compileUnit tools_demo (unit_demo ''b.py'')) = 1"
    by (simp add: compileUnit_def tools_demo_def unit_demo_def)
  then have h4': "exitCode (compileUnit tools_demo (unit_demo ''b.py'')) \<noteq> 0
      \<or> moduleNotFound tools_demo (diagnostics (compileUnit tools_demo (unit_demo ''b.py''))) \<noteq> None"
    by simp
  have a: "store (submit tools_demo Map.empty [unit_demo ''a.py'', unit_demo ''b.py'']) ''a.py'' \<noteq> None"
    by (simp add: submit_def isStale_def worker_store failureOf_def compileUnit_def
        tools_demo_def unit_demo_def)
  show ?thesis
    using failed_unit_keeps_fingerprint [OF h1 h2 h3 h4'] h3 h4 a
    by (simp add: unit_demo_def)
qed

subsection \<open>Claim C5\<close>

text \<open>
  C5: partial failure is not fatal to the batch. For a run over three units \<open>A\<close>, \<open>B\<close>,
  \<open>C\<close> (distinct paths, all three stale, so all three are compiled) where only \<open>B\<close>'s
  compile fails, the run goes through Reporting, the final BuildReport records \<open>A\<close> and
  \<open>C\<close> as Succeeded and \<open>B\<close> as Failed with its captured diagnostic text, and the process
  exit code is nonzero. Per-unit failures never abort the remaining units: for any list
  of units \<open>us\<close> and any compiler results, the run reaches Reporting, the compiler is
  invoked for every stale unit, and every unit is reported as succeeded, failed or
  skipped.
\<close>

theorem partial_failure_is_not_fatal:
  assumes "distinct (map relativePath [A, B, C])"
    and "isStale c s A" and "isStale c s B" and "isStale c s C"
    and "exitCode (compileUnit c A) = 0" and "moduleNotFound c (diagnostics (compileUnit c A)) = None"
    and "exitCode (compileUnit c C) = 0" and "moduleNotFound c (diagnostics (compileUnit c C)) = None"
    and "exitCode (compileUnit c B) \<noteq> 0 \<or> moduleNotFound c (diagnostics (compileUnit c B)) \<noteq> None"
  shows "states (build c s (Some [A, B, C])) = [Idle, Scanning, Pruning, Building, Reporting, Done]
    \<and> succeeded (runReport (build c s (Some [A, B, C]))) = {relativePath A, relativePath C}
    \<and> (\<exists>d. failed (runReport (build c s (Some [A, B, C]))) = [relativePath B \<mapsto> d]
          \<and> diagnosticText d = diagnostics (compileUnit c B))
    \<and> skipped (runReport (build c s (Some [A, B, C]))) = {}
    \<and> processExit (build c s (Some [A, B, C])) \<noteq> 0
    \<and> Reporting \<in> set (states (build c s (Some us)))
    \<and> succeeded (runReport (build c s (Some us))) \<union> dom (failed (runReport (build c s (Some us))))
        \<union> skipped (runReport (build c s (Some us))) = set (map relativePath us)
    \<and> invocations (submit c s us) = map relativePath (filter (isStale c s) us)"
proof -
  have okA: "failureOf c (compileUnit c A) = None" and okC: "failureOf c (compileUnit c C) = None"
    using assms(5-8) by (simp_all add: failureOf_None_iff)
  from assms(9) obtain d where d: "failureOf c (compileUnit c B) = Some d"
    using failureOf_Some_iff [of c "compileUnit c B"] by auto
  have captured: "diagnosticText d = diagnostics (compileUnit c B)"
    by (rule failureOf_text [OF d])
  have sub: "submit c s [A, B, C] =
      \<lparr>store = (s(relativePath A \<mapsto> fingerprint c A))(relativePath C \<mapsto> fingerprint c C),
       report = \<lparr>succeeded = {relativePath C, relativePath A},
                 failed = [relativePath B \<mapsto> d], skipped = {}\<rparr>,
       invocations = [relativePath A, relativePath B, relativePath C]\<rparr>"
    using assms(2-4) okA okC d by (simp add: submit_def worker_def Let_def record_fingerprint_def)
  have "states (build c s (Some [A, B, C])) = [Idle, Scanning, Pruning, Building, Reporting, Done]"
    "succeeded (runReport (build c s (Some [A, B, C]))) = {relativePath A, relativePath C}"
    "failed (runReport (build c s (Some [A, B, C]))) = [relativePath B \<mapsto> d]"
    "skipped (runReport (build c s (Some [A, B, C]))) = {}"
    "processExit (build c s (Some [A, B, C])) \<noteq> 0"
    by (auto simp add: build_def Let_def sub)
  then show ?thesis using captured build_reports_every_unit [of c s us] by blast
qed

theorem partial_failure_is_not_fatal_witness:
  "states (build tools_demo Map.empty (Some [unit_demo ''a.py'', unit_demo ''b.py'', unit_demo ''c.py'']))
     = [Idle, Scanning, Pruning, Building, Reporting, Done]
   \<and> succeeded (runReport (build tools_demo Map.empty
        (Some [unit_demo ''a.py'', unit_demo ''b.py'', unit_demo ''c.py'']))) = {''a.py'', ''c.py''}
   \<and> failed (runReport (build tools_demo Map.empty
        (Some [unit_demo ''a.py'', unit_demo ''b.py'', unit_demo ''c.py''])))
       = [''b.py'' \<mapsto> CompileError ''b.py:1: error'']
   \<and> processExit (build tools_demo Map.empty
        (Some [unit_demo ''a.py'', unit_demo ''b.py'', unit_demo ''c.py''])) = 1"
proof -
  let ?A = "unit_demo ''a.py''" and ?B = "unit_demo ''b.py''" and ?C = "unit_demo ''c.py''"
  have h1: "distinct (map relativePath [?A, ?B, ?C])" by (simp add: unit_demo_def)
  have h2: "isStale tools_demo Map.empty ?A" "isStale tools_demo Map.empty ?B"
    "isStale tools_demo Map.empty ?C"
    by (simp_all add: isStale_def)
  have rB: "compileUnit tools_demo ?B = \<lparr>exitCode = 1, diagnostics = ''b.py:1: error''\<rparr>"
    by (simp add: compileUnit_def tools_demo_def unit_demo_def)
  have h3: "exitCode (compileUnit tools_demo ?A) = 0"
    "moduleNotFound tools_demo (diagnostics (compileUnit tools_demo ?A)) = None"
    "exitCode (compileUnit tools_demo ?C) = 0"
    "moduleNotFound tools_demo (diagnostics (compileUnit tools_demo ?C)) = None"
    by (simp_all add: compileUnit_def tools_demo_def unit_demo_def)
  have h4: "exitCode (compileUnit tools_demo ?B) \<noteq> 0
      \<or> moduleNotFound tools_demo (diagnostics (compileUnit tools_demo ?B)) \<noteq> None"
    by (simp add: rB)
  have exit01: "processExit (build tools_demo Map.empty (Some [?A, ?B, ?C])) \<in> {0, 1}"
    by (simp add: build_def Let_def)
  from partial_failure_is_not_fatal [OF h1 h2 h3 h4, of "[]"]
  obtain d where
    st: "states (build tools_demo Map.empty (Some [?A, ?B, ?C]))
          = [Idle, Scanning, Pruning, Building, Reporting, Done]"
    and su: "succeeded (runReport (build tools_demo Map.empty (Some [?A, ?B, ?C])))
          = {relativePath ?A, relativePath ?C}"
    and fa: "failed (runReport (build tools_demo Map.empty (Some [?A, ?B, ?C])))
          = [relativePath ?B \<mapsto> d]"
    and ex: "processExit (build tools_demo Map.empty (Some [?A, ?B, ?C])) \<noteq> 0"
    by blast
  have "failed (runReport (build tools_demo Map.empty (Some [?A, ?B, ?C]))) ''b.py''
      = failureOf tools_demo (compileUnit tools_demo ?B)"
    by (simp add: build_def Let_def submit_def isStale_def worker_failed unit_demo_def)
  also have "\<dots> = Some (CompileError ''b.py:1: error'')"
    by (simp add: rB failureOf_def) (simp add: tools_demo_def)
  finally have "d = CompileError ''b.py:1: error''"
    using fa by (simp add: unit_demo_def)
  then show ?thesis using st su fa ex exit01 by (simp add: unit_demo_def)
qed

end
